theory Spec2Isabelle
  imports Main "HOL-Library.Word" "HOL-Library.AList"
begin

unbundle bit_operations_syntax

section \<open>The id generator (class SnowFlake)\<close>

text \<open>
  The private fields \<open>epoch\<close>, \<open>workerIdBits\<close>, \<open>sequenceBits\<close> and \<open>maxSequence\<close> are
  initialised once and never assigned again, so they are constants here. The mutable
  fields \<open>lastMs\<close> and \<open>sequence\<close> and the constructor argument \<open>workerId\<close> form the
  state of one generator. Numbers are integers; \<open>BigInt\<close> values are unbounded integers
  and the bit operations on them are those of \<open>int\<close>.
\<close>

definition epoch :: int where
  "epoch = 1704067200000"

definition workerIdBits :: nat where
  "workerIdBits = 10"

definition sequenceBits :: nat where
  "sequenceBits = 12"

definition maxSequence :: int where
  "maxSequence = push_bit sequenceBits 1 - 1"

record SnowFlake =
  workerId :: int
  lastMs :: int
  sequence :: int

definition new_SnowFlake :: "int \<Rightarrow> SnowFlake" where
  "new_SnowFlake w = \<lparr>workerId = w, lastMs = 0, sequence = 0\<rparr>"

text \<open>
  The wall clock is the list of the values that the coming calls of \<open>Date.now()\<close> return,
  in order; every call takes the head. \<open>None\<close> means that the readings ran out before the
  operation returned.
\<close>

type_synonym clock = "int list"

fun Date_now :: "clock \<Rightarrow> (int \<times> clock) option" where
  "Date_now [] = None"
| "Date_now (t # ts) = Some (t, ts)"

text \<open>The loop \<^verbatim>\<open>while (Date.now() <= this.lastMs) {}\<close>: it reads the clock until a
  reading is later than \<open>lastMs\<close>, and that reading is consumed too.\<close>

fun busy_wait :: "int \<Rightarrow> clock \<Rightarrow> clock option" where
  "busy_wait l [] = None"
| "busy_wait l (t # ts) = (if t \<le> l then busy_wait l ts else Some ts)"

text \<open>The last three statements of \<open>nextId\<close>: the id is built from the value \<open>now\<close> read at
  the start of the call.\<close>

definition make_id :: "int \<Rightarrow> SnowFlake \<Rightarrow> int" where
  "make_id now sf =
     push_bit (workerIdBits + sequenceBits) (now - epoch)
       OR push_bit sequenceBits (workerId sf) OR sequence sf"

fun nextId :: "SnowFlake \<Rightarrow> clock \<Rightarrow> (int \<times> SnowFlake \<times> clock) option" where
  "nextId sf [] = None"
| "nextId sf (now # clk) =
     (if now = lastMs sf then
        (let sf1 = sf\<lparr>sequence := (sequence sf + 1) AND maxSequence\<rparr> in
         if sequence sf1 = 0 then
           (case busy_wait (lastMs sf1) clk of
              None \<Rightarrow> None
            | Some clk' \<Rightarrow> Some (make_id now sf1, sf1, clk'))
         else Some (make_id now sf1, sf1, clk))
      else
        (let sf1 = sf\<lparr>sequence := 0, lastMs := now\<rparr> in
         Some (make_id now sf1, sf1, clk)))"

text \<open>\<open>n\<close> calls of \<open>nextId\<close> in a row on one generator, with the ids in the order returned.\<close>

fun nextIds :: "nat \<Rightarrow> SnowFlake \<Rightarrow> clock \<Rightarrow> (int list \<times> SnowFlake \<times> clock) option" where
  "nextIds 0 sf clk = Some ([], sf, clk)"
| "nextIds (Suc n) sf clk =
     (case nextId sf clk of
        None \<Rightarrow> None
      | Some (i, sf1, clk1) \<Rightarrow>
          (case nextIds n sf1 clk1 of
             None \<Rightarrow> None
           | Some (is, sf2, clk2) \<Rightarrow> Some (i # is, sf2, clk2)))"

section \<open>The facade (class Perikan)\<close>

text \<open>The facade holds its options and its generator; the bus it owns is modelled on its
  own below.\<close>

record Perikan =
  options_workerId :: int
  sf :: SnowFlake

definition new_Perikan :: "int \<Rightarrow> Perikan" where
  "new_Perikan w = \<lparr>options_workerId = w, sf = new_SnowFlake w\<rparr>"

definition Perikan_nextId :: "Perikan \<Rightarrow> clock \<Rightarrow> (int \<times> Perikan \<times> clock) option" where
  "Perikan_nextId pk clk =
     (case nextId (sf pk) clk of
        None \<Rightarrow> None
      | Some (i, sf1, clk1) \<Rightarrow> Some (i, pk\<lparr>sf := sf1\<rparr>, clk1))"

section \<open>JavaScript values\<close>

text \<open>
  Payloads, call arguments, envelopes and step results are inspected at run time
  (\<open>typeof\<close>, \<open>in\<close>, \<open>Object.keys\<close>, \<open>Array.isArray\<close>), so they are values of one type.
  An object is the list of its own enumerable properties in insertion order (keys are
  meant to be distinct; a lookup takes the first). Numbers are integers.
\<close>

datatype jsval =
    JUndefined
  | JNull
  | JBool bool
  | JNum int
  | JBigInt int
  | JStr string
  | JArr "jsval list"
  | JObj "(string \<times> jsval) list"

text \<open>\<^verbatim>\<open>typeof v === "object"\<close>\<close>

fun typeof_object :: "jsval \<Rightarrow> bool" where
  "typeof_object JNull = True"
| "typeof_object (JArr xs) = True"
| "typeof_object (JObj kvs) = True"
| "typeof_object v = False"

fun Array_isArray :: "jsval \<Rightarrow> bool" where
  "Array_isArray (JArr xs) = True"
| "Array_isArray v = False"

text \<open>The truth value of \<open>v\<close> in a condition.\<close>

fun truthy :: "jsval \<Rightarrow> bool" where
  "truthy JUndefined = False"
| "truthy JNull = False"
| "truthy (JBool b) = b"
| "truthy (JNum n) = (n \<noteq> 0)"
| "truthy (JBigInt n) = (n \<noteq> 0)"
| "truthy (JStr s) = (s \<noteq> [])"
| "truthy (JArr xs) = True"
| "truthy (JObj kvs) = True"

text \<open>\<^verbatim>\<open>v === undefined || v === null\<close>, the test behind \<open>??\<close> and \<open>?.\<close>\<close>

fun nullish :: "jsval \<Rightarrow> bool" where
  "nullish JUndefined = True"
| "nullish JNull = True"
| "nullish v = False"

text \<open>Reading the property \<open>k\<close> of \<open>v\<close> where the source writes \<open>v.k\<close> on an object or
  \<open>v?.k\<close>: a missing key gives \<open>undefined\<close>.\<close>

fun get_prop :: "jsval \<Rightarrow> string \<Rightarrow> jsval" where
  "get_prop (JObj kvs) k = (case map_of kvs k of None \<Rightarrow> JUndefined | Some v \<Rightarrow> v)"
| "get_prop v k = JUndefined"

text \<open>\<^verbatim>\<open>k in v\<close> for a property name \<open>k\<close> that no prototype and no array defines.\<close>

fun has_key :: "string \<Rightarrow> jsval \<Rightarrow> bool" where
  "has_key k (JObj kvs) = (k \<in> set (map fst kvs))"
| "has_key k v = False"

text \<open>\<^verbatim>\<open>Object.keys(v).length\<close> for a value with \<^verbatim>\<open>typeof v === "object"\<close> that is not
  null.\<close>

fun Object_keys_length :: "jsval \<Rightarrow> nat" where
  "Object_keys_length (JObj kvs) = length kvs"
| "Object_keys_length (JArr xs) = length xs"
| "Object_keys_length v = 0"

fun isEmpty :: "jsval \<Rightarrow> bool" where
  "isEmpty val =
     (val = JUndefined \<or> val = JNull \<or> (typeof_object val \<and> Object_keys_length val = 0))"

section \<open>Event definitions (class PerikanEvent)\<close>

text \<open>
  The schema library is outside this repository: a payload schema is the function that
  tells, for a value, how its synchronous \<open>safeParse\<close> ends. It reports success, it
  reports failure, or it throws: the library throws when the schema needs the
  asynchronous parse, and a refinement of the schema may throw by itself. The parse cache
  does not take part in \<open>validate\<close>, \<open>parsePayload\<close> or \<open>create\<close> and is left out.
\<close>

datatype parse_result = Success | Failure | ParseThrows

record PerikanEventDefaultOptions =
  defaultTags :: "string list option"
  defaultPayload :: "jsval option"

record PerikanEvent =
  topic :: string
  payloadSchema :: "jsval \<Rightarrow> parse_result"
  opts :: "PerikanEventDefaultOptions option"

text \<open>\<open>ValidationError\<close> is the error that a parse reporting failure is turned into,
  \<open>SchemaThrew\<close> what a schema's parse threw by itself, \<open>TypeError\<close> the error of spreading a
  value that is not iterable.\<close>

datatype error = ValidationError | TypeError | SchemaThrew

fun is_number :: "jsval \<Rightarrow> bool" where
  "is_number (JNum n) = True"
| "is_number v = False"

fun is_bigint :: "jsval \<Rightarrow> bool" where
  "is_bigint (JBigInt n) = True"
| "is_bigint v = False"

fun is_string :: "jsval \<Rightarrow> bool" where
  "is_string (JStr s) = True"
| "is_string v = False"

fun is_array_of :: "(jsval \<Rightarrow> bool) \<Rightarrow> jsval \<Rightarrow> bool" where
  "is_array_of p (JArr xs) = list_all p xs"
| "is_array_of p v = False"

text \<open>The fields of \<open>PerikanEventDataSchema\<close> other than the payload, with the topic
  replaced by the literal topic, as the constructor does.\<close>

definition envelope_fields :: "PerikanEvent \<Rightarrow> jsval \<Rightarrow> bool" where
  "envelope_fields ev data =
     (is_bigint (get_prop data ''id'') \<and>
      is_number (get_prop data ''time'') \<and>
      get_prop data ''topic'' = JStr (topic ev) \<and>
      is_number (get_prop data ''from'') \<and>
      is_array_of is_number (get_prop data ''to'') \<and>
      is_array_of is_string (get_prop data ''tags''))"

text \<open>\<open>safeParse\<close> of the event schema, which is \<open>PerikanEventDataSchema\<close> extended with the
  literal topic and the payload schema. A value that is no object fails before any field
  is looked at. The object schema parses every field of an object, so the payload schema
  runs whatever the other fields are, and what it throws leaves \<open>safeParse\<close>.\<close>

fun eventSchema :: "PerikanEvent \<Rightarrow> jsval \<Rightarrow> parse_result" where
  "eventSchema ev (JObj kvs) =
     (case payloadSchema ev (get_prop (JObj kvs) ''payload'') of
        ParseThrows \<Rightarrow> ParseThrows
      | Failure \<Rightarrow> Failure
      | Success \<Rightarrow> if envelope_fields ev (JObj kvs) then Success else Failure)"
| "eventSchema ev v = Failure"

text \<open>\<open>validate\<close> returns the \<open>success\<close> field of the result of \<open>safeParse\<close>, and throws what
  \<open>safeParse\<close> throws.\<close>

definition validate :: "PerikanEvent \<Rightarrow> jsval \<Rightarrow> error + bool" where
  "validate ev data =
     (case eventSchema ev data of
        Success \<Rightarrow> Inr True
      | Failure \<Rightarrow> Inr False
      | ParseThrows \<Rightarrow> Inl SchemaThrew)"

text \<open>\<open>parsePayload\<close> returns the parsed value or throws; \<open>create\<close> drops the returned
  value, so it is the input here.\<close>

definition parsePayload :: "PerikanEvent \<Rightarrow> jsval \<Rightarrow> error + jsval" where
  "parsePayload ev data =
     (case payloadSchema ev data of
        Success \<Rightarrow> Inr data
      | Failure \<Rightarrow> Inl ValidationError
      | ParseThrows \<Rightarrow> Inl SchemaThrew)"

text \<open>\<^verbatim>\<open>this.opts?.defaultPayload ?? {}\<close>\<close>

definition defaultPayload_or_empty :: "PerikanEvent \<Rightarrow> jsval" where
  "defaultPayload_or_empty ev =
     (case opts ev of
        None \<Rightarrow> JObj []
      | Some os \<Rightarrow>
          (case defaultPayload os of
             None \<Rightarrow> JObj []
           | Some d \<Rightarrow> if nullish d then JObj [] else d))"

text \<open>The second branch condition of \<open>_resolveArgs\<close>.\<close>

definition looks_like_options :: "jsval \<Rightarrow> bool" where
  "looks_like_options v =
     (truthy v \<and> typeof_object v \<and>
      (has_key ''payload'' v \<or> has_key ''tags'' v \<or> has_key ''from'' v \<or> has_key ''to'' v))"

text \<open>\<open>_resolveArgs\<close>; an argument that the caller left out is \<open>undefined\<close>. The result is
  the pair of \<open>payload\<close> and \<open>options\<close>.\<close>

definition resolveArgs :: "PerikanEvent \<Rightarrow> jsval \<Rightarrow> jsval \<Rightarrow> jsval \<times> jsval" where
  "resolveArgs ev payloadOrOpts opts' =
     (let (payload, options) =
            (if opts' \<noteq> JUndefined then (payloadOrOpts, opts')
             else if looks_like_options payloadOrOpts
               then (get_prop payloadOrOpts ''payload'', payloadOrOpts)
             else (payloadOrOpts, JUndefined))
      in (if isEmpty payload then defaultPayload_or_empty ev else payload, options))"

text \<open>The spread \<open>...v\<close> inside an array literal: arrays and strings are iterable, the
  other values of this model are not.\<close>

fun spread :: "jsval \<Rightarrow> jsval list option" where
  "spread (JArr xs) = Some xs"
| "spread (JStr s) = Some (map (\<lambda>c. JStr [c]) s)"
| "spread v = None"

text \<open>\<^verbatim>\<open>a ?? b\<close>\<close>

definition nullish_or :: "jsval \<Rightarrow> jsval \<Rightarrow> jsval" where
  "nullish_or a b = (if nullish a then b else a)"

definition defaultTags_or_empty :: "PerikanEvent \<Rightarrow> jsval list" where
  "defaultTags_or_empty ev =
     (case opts ev of
        None \<Rightarrow> []
      | Some os \<Rightarrow> (case defaultTags os of None \<Rightarrow> [] | Some ts \<Rightarrow> map JStr ts))"

text \<open>\<^verbatim>\<open>...(options?.tags ?? [])\<close>: the tags of the call, or \<open>None\<close> when the spread throws.\<close>

definition call_tags :: "jsval \<Rightarrow> jsval list option" where
  "call_tags options = spread (nullish_or (get_prop options ''tags'') (JArr []))"

text \<open>\<open>_buildEventData\<close>. The fields are evaluated in the order written: the id first, then
  the time, and the spread of the call's tags can throw after both.\<close>

definition buildEventData ::
  "PerikanEvent \<Rightarrow> Perikan \<Rightarrow> clock \<Rightarrow> jsval \<Rightarrow> jsval \<Rightarrow> ((error + jsval) \<times> Perikan \<times> clock) option"
where
  "buildEventData ev pk clk payload options =
     (case Perikan_nextId pk clk of
        None \<Rightarrow> None
      | Some (i, pk1, clk1) \<Rightarrow>
          (case Date_now clk1 of
             None \<Rightarrow> None
           | Some (t, clk2) \<Rightarrow>
               (case call_tags options of
                  None \<Rightarrow> Some (Inl TypeError, pk1, clk2)
                | Some tags \<Rightarrow>
                    Some (Inr (JObj
                      [(''id'', JBigInt i),
                       (''time'', JNum t),
                       (''topic'', JStr (topic ev)),
                       (''from'', nullish_or (get_prop options ''from'') (JNum (options_workerId pk1))),
                       (''to'', nullish_or (get_prop options ''to'') (JArr [])),
                       (''tags'', JArr (defaultTags_or_empty ev @ tags)),
                       (''payload'', payload)]), pk1, clk2))))"

definition create ::
  "PerikanEvent \<Rightarrow> Perikan \<Rightarrow> clock \<Rightarrow> jsval \<Rightarrow> jsval \<Rightarrow> ((error + jsval) \<times> Perikan \<times> clock) option"
where
  "create ev pk clk payloadOrOpts opts' =
     (let (payload, options) = resolveArgs ev payloadOrOpts opts' in
      case parsePayload ev payload of
        Inl e \<Rightarrow> Some (Inl e, pk, clk)
      | Inr parsed \<Rightarrow> buildEventData ev pk clk payload options)"



section \<open>The local bus (class PerikanLocalBus)\<close>

text \<open>
  A handler is a function object, known by its reference (a number): \<open>Set\<close> compares
  handlers by reference. What a handler does when it is called is given by a table from
  references to behaviours, a parameter of \<open>emit\<close>.

  The registry \<open>handlersMap\<close> maps a topic to a \<open>Set\<close> object, and the closure returned by
  \<open>on\<close> keeps a reference to the \<open>Set\<close> object it added its handler to, not to the topic's
  current entry. So the \<open>Set\<close> objects live in a store, from addresses to their elements in
  insertion order, and the registry holds addresses.
\<close>

record PerikanInternalBusOptions =
  opt_workerId :: "int option"
  opt_maxTimeout :: "int option"

record PerikanLocalBus =
  maxTimeout :: int
  bus_workerId :: int
  store :: "nat \<Rightarrow> nat list"
  handlersMap :: "string \<rightharpoonup> nat"
  next_address :: nat

definition new_PerikanLocalBus :: "PerikanInternalBusOptions \<Rightarrow> PerikanLocalBus" where
  "new_PerikanLocalBus options =
     (let timeout = (case opt_maxTimeout options of None \<Rightarrow> 0 | Some t \<Rightarrow> t) in
      \<lparr>maxTimeout = (if timeout > 0 then timeout else 0),
       bus_workerId = (case opt_workerId options of None \<Rightarrow> 0 | Some w \<Rightarrow> w),
       store = (\<lambda>a. []),
       handlersMap = Map.empty,
       next_address = 0\<rparr>)"

definition Set_add :: "nat \<Rightarrow> nat list \<Rightarrow> nat list" where
  "Set_add h hs = (if h \<in> set hs then hs else hs @ [h])"

definition Set_delete :: "nat \<Rightarrow> nat list \<Rightarrow> nat list" where
  "Set_delete h hs = removeAll h hs"

text \<open>The closure returned by \<open>on\<close>: it captures the \<open>Set\<close> object \<open>handlers\<close>, the handler
  and the event, of which it uses the topic.\<close>

datatype unsubscribe = Unsubscribe nat nat string

definition on :: "PerikanLocalBus \<Rightarrow> PerikanEvent \<Rightarrow> nat \<Rightarrow> PerikanLocalBus \<times> unsubscribe" where
  "on b ev handler =
     (let (b1, handlers) =
            (case handlersMap b (topic ev) of
               None \<Rightarrow>
                 (b\<lparr>store := (store b)(next_address b := []),
                    handlersMap := (handlersMap b)(topic ev \<mapsto> next_address b),
                    next_address := Suc (next_address b)\<rparr>, next_address b)
             | Some a \<Rightarrow> (b, a));
          b2 = b1\<lparr>store := (store b1)(handlers := Set_add handler (store b1 handlers))\<rparr>
      in (b2, Unsubscribe handlers handler (topic ev)))"

fun call_unsubscribe :: "unsubscribe \<Rightarrow> PerikanLocalBus \<Rightarrow> PerikanLocalBus" where
  "call_unsubscribe (Unsubscribe handlers handler t) b =
     (let b1 = b\<lparr>store := (store b)(handlers := Set_delete handler (store b handlers))\<rparr> in
      if length (store b1 handlers) = 0
      then b1\<lparr>handlersMap := (handlersMap b1)(t := None)\<rparr>
      else b1)"

text \<open>
  A promise is described by how it ends: fulfilled or rejected at a logical time, in
  milliseconds after the call of \<open>emit\<close>, or never settled. A call of a handler returns a
  value that is no promise, returns a promise, or throws.
\<close>

datatype 'e promise = Fulfils nat | Rejects nat 'e | Pending

datatype 'e call_result = Returns | ReturnsPromise "'e promise" | Throws 'e

text \<open>What a promise of the bus can be rejected with: the handler's own error, the
  \<open>Error("Timeout")\<close> of the bus's timer, or what \<open>event.validate\<close> threw inside \<open>emit\<close>.
  \<open>NotAnArray\<close> stands for the \<open>TypeError\<close> of reading \<open>eventData.to.length\<close> or calling
  \<open>includes\<close> on a value that is no array.\<close>

datatype 'e failure = HandlerError 'e | Timeout | NotAnArray | ValidateThrew

text \<open>The body of the \<open>map\<close> over the handlers: \<open>Promise.resolve\<close> of the returned value, or
  \<open>Promise.reject\<close> of what was thrown.\<close>

fun task_of :: "'e call_result \<Rightarrow> 'e promise" where
  "task_of Returns = Fulfils 0"
| "task_of (ReturnsPromise p) = p"
| "task_of (Throws err) = Rejects 0 err"

text \<open>The delay that \<open>setTimeout\<close> uses for a requested delay: a delay below 1 or above
  2147483647 milliseconds is replaced by 1.\<close>

definition setTimeout_delay :: "int \<Rightarrow> nat" where
  "setTimeout_delay ms = (if ms < 1 \<or> 2147483647 < ms then 1 else nat ms)"

text \<open>\<open>Promise.race\<close> of a task and a timer that rejects after \<open>T\<close> milliseconds. A task that
  settles at the very time of the timer wins: its work was scheduled before the timer was
  created.\<close>

fun race_timeout :: "nat \<Rightarrow> 'e promise \<Rightarrow> 'e failure promise" where
  "race_timeout T (Fulfils d) = (if d \<le> T then Fulfils d else Rejects T Timeout)"
| "race_timeout T (Rejects d err) = (if d \<le> T then Rejects d (HandlerError err) else Rejects T Timeout)"
| "race_timeout T Pending = Rejects T Timeout"

fun no_timeout :: "'e promise \<Rightarrow> 'e failure promise" where
  "no_timeout (Fulfils d) = Fulfils d"
| "no_timeout (Rejects d err) = Rejects d (HandlerError err)"
| "no_timeout Pending = Pending"

fun settle_time :: "'e promise \<Rightarrow> nat option" where
  "settle_time (Fulfils d) = Some d"
| "settle_time (Rejects d err) = Some d"
| "settle_time Pending = None"

text \<open>\<open>Promise.allSettled\<close>: fulfilled once every promise of the list has settled, never
  rejected, and not settled while one of them is not.\<close>

fun latest :: "'e promise list \<Rightarrow> nat option" where
  "latest [] = Some 0"
| "latest (p # ps) =
     (case settle_time p of
        None \<Rightarrow> None
      | Some d \<Rightarrow> (case latest ps of None \<Rightarrow> None | Some m \<Rightarrow> Some (max d m)))"

definition Promise_allSettled :: "'e promise list \<Rightarrow> 'x promise" where
  "Promise_allSettled ps = (case latest ps of None \<Rightarrow> Pending | Some m \<Rightarrow> Fulfils m)"

text \<open>
  A handler gets the envelope object itself and can change it before it returns or
  throws; the handlers are called one after the other, before \<open>emit\<close> awaits anything.
  So the behaviour of a handler gives, for the envelope as it is when the handler is
  called, the result of the call and the envelope as the call leaves it.

  The first \<open>map\<close> of \<open>emit\<close>: every handler is called, in the order of the \<open>Set\<close>, and its
  result is turned into a task. The list has, for every call, the handler with the
  envelope it was given, and the task.
\<close>

type_synonym 'e handler_table = "nat \<Rightarrow> jsval \<Rightarrow> 'e call_result \<times> jsval"

fun call_handlers ::
  "'e handler_table \<Rightarrow> nat list \<Rightarrow> jsval \<Rightarrow> ((nat \<times> jsval) \<times> 'e promise) list"
where
  "call_handlers run [] eventData = []"
| "call_handlers run (handler # handlers) eventData =
     (case run handler eventData of
        (r, eventData') \<Rightarrow>
          ((handler, eventData), task_of r) # call_handlers run handlers eventData')"

text \<open>The body of the second \<open>map\<close> of \<open>emit\<close>: the promise that \<open>Promise.allSettled\<close> waits
  for, for one task.\<close>

definition raced_task :: "PerikanLocalBus \<Rightarrow> 'e promise \<Rightarrow> 'e failure promise" where
  "raced_task b task =
     (if maxTimeout b > 0 then race_timeout (setTimeout_delay (maxTimeout b)) task
      else no_timeout task)"

text \<open>What one call of \<open>emit\<close> did: the handlers it called, in order, each with the value
  it was given; the promises that \<open>Promise.allSettled\<close> waited for; and the promise that
  \<open>emit\<close> returned.\<close>

record 'e emitted =
  invoked :: "(nat \<times> jsval) list"
  outcomes :: "'e failure promise list"
  settled :: "'e failure promise"

definition nothing_emitted :: "'e emitted" where
  "nothing_emitted = \<lparr>invoked = [], outcomes = [], settled = Fulfils 0\<rparr>"

text \<open>\<open>emit\<close> is an \<open>async\<close> function and calls \<open>event.validate\<close> outside any \<open>try\<close>: what
  \<open>validate\<close> throws rejects the promise that \<open>emit\<close> returns.\<close>

definition emit :: "'e handler_table \<Rightarrow> PerikanLocalBus \<Rightarrow> PerikanEvent \<Rightarrow> jsval \<Rightarrow> 'e emitted" where
  "emit run b ev eventData =
     (case validate ev eventData of
        Inl err \<Rightarrow> \<lparr>invoked = [], outcomes = [], settled = Rejects 0 ValidateThrew\<rparr>
      | Inr valid \<Rightarrow>
          if \<not> valid then nothing_emitted
          else
            (case get_prop eventData ''to'' of
               JArr to \<Rightarrow>
                 (if length to = 0 \<or> JNum (bus_workerId b) \<in> set to then
                    (case handlersMap b (topic ev) of
                       Some a \<Rightarrow>
                         (let handlers = store b a;
                              tasks = call_handlers run handlers eventData;
                              raced = map (\<lambda>(call, task). raced_task b task) tasks
                          in \<lparr>invoked = map fst tasks,
                              outcomes = raced,
                              settled = Promise_allSettled raced\<rparr>)
                     | None \<Rightarrow> nothing_emitted)
                  else nothing_emitted)
             | v \<Rightarrow> \<lparr>invoked = [], outcomes = [], settled = Rejects 0 NotAnArray\<rparr>))"

text \<open>A session with one bus: a sequence of registrations and of calls of the closures
  that earlier registrations returned (the \<open>k\<close>-th closure returned, counted from 0).\<close>

datatype bus_op = On PerikanEvent nat | Unsub nat

record session =
  the_bus :: PerikanLocalBus
  closures :: "unsubscribe list"

fun apply_op :: "session \<Rightarrow> bus_op \<Rightarrow> session" where
  "apply_op s (On ev handler) =
     (let (b, u) = on (the_bus s) ev handler in s\<lparr>the_bus := b, closures := closures s @ [u]\<rparr>)"
| "apply_op s (Unsub k) =
     (if k < length (closures s)
      then s\<lparr>the_bus := call_unsubscribe (closures s ! k) (the_bus s)\<rparr>
      else s)"

definition new_session :: "PerikanInternalBusOptions \<Rightarrow> session" where
  "new_session options = \<lparr>the_bus = new_PerikanLocalBus options, closures = []\<rparr>"

definition run_ops :: "PerikanInternalBusOptions \<Rightarrow> bus_op list \<Rightarrow> session" where
  "run_ops options ops = foldl apply_op (new_session options) ops"

section \<open>Flows (class PerikanFlow)\<close>

text \<open>
  The context is one mutable object shared by the steps of a dispatch: the list of its
  properties. The property \<open>perikan\<close> holds the facade, a class instance and no plain
  value. A step receives the context and may change it; whatever else it reads and writes
  is the world \<open>'w\<close>. Awaiting what a step returns gives a value, or the error that the
  step threw or its promise was rejected with, or nothing when the promise never
  settles.
\<close>

datatype ctx_value = Val jsval | Facade

type_synonym ctx = "(string \<times> ctx_value) list"

datatype 'e awaited = Value jsval | Raised 'e | Unsettled

type_synonym ('e, 'w) PipeFn = "ctx \<Rightarrow> 'w \<Rightarrow> 'e awaited \<times> ctx \<times> 'w"

type_synonym ('e, 'w) CatchFn = "ctx \<Rightarrow> 'e \<Rightarrow> 'w \<Rightarrow> 'e awaited \<times> ctx \<times> 'w"

record ('e, 'w) PerikanFlow =
  pipeFn :: "('e, 'w) PipeFn list"
  catchFn :: "('e, 'w) CatchFn option"

definition new_PerikanFlow :: "('e, 'w) PerikanFlow" where
  "new_PerikanFlow = \<lparr>pipeFn = [], catchFn = None\<rparr>"

definition pipe :: "('e, 'w) PipeFn \<Rightarrow> ('e, 'w) PerikanFlow \<Rightarrow> ('e, 'w) PerikanFlow" where
  "pipe fn fl = fl\<lparr>pipeFn := pipeFn fl @ [fn]\<rparr>"

definition catch :: "('e, 'w) CatchFn \<Rightarrow> ('e, 'w) PerikanFlow \<Rightarrow> ('e, 'w) PerikanFlow" where
  "catch fn fl = fl\<lparr>catchFn := Some fn\<rparr>"

definition filter_step :: "(ctx \<Rightarrow> bool) \<Rightarrow> ('e, 'w) PerikanFlow \<Rightarrow> ('e, 'w) PerikanFlow" where
  "filter_step pred fl =
     fl\<lparr>pipeFn := pipeFn fl @
        [\<lambda>c w. (if \<not> pred c then Value (JBool False) else Value JUndefined, c, w)]\<rparr>"

definition handle :: "('e, 'w) PipeFn \<Rightarrow> ('e, 'w) PerikanFlow \<Rightarrow> ('e, 'w) PerikanFlow" where
  "handle fn fl =
     fl\<lparr>pipeFn := pipeFn fl @
        [\<lambda>c w. (case fn c w of
                  (Value v, c1, w1) \<Rightarrow> (Value JUndefined, c1, w1)
                | r \<Rightarrow> r)]\<rparr>"

definition createFlowContext :: "Perikan \<Rightarrow> clock \<Rightarrow> jsval \<Rightarrow> (ctx \<times> Perikan \<times> clock) option" where
  "createFlowContext pk clk eventData =
     (case Perikan_nextId pk clk of
        None \<Rightarrow> None
      | Some (i, pk1, clk1) \<Rightarrow>
          Some ([(''flowId'', Val (JBigInt i)),
                 (''perikan'', Facade),
                 (''topic'', Val (get_prop eventData ''topic'')),
                 (''data'', Val eventData),
                 (''payload'', Val (get_prop eventData ''payload''))], pk1, clk1))"

text \<open>\<open>Object.assign(ctx, result)\<close>: the properties of the result are assigned one after
  the other; an assignment replaces the value of a key the context has and adds the key
  at the end otherwise.\<close>

fun Object_assign :: "ctx \<Rightarrow> jsval \<Rightarrow> ctx" where
  "Object_assign c (JObj kvs) = fold (\<lambda>(k, v) c'. AList.update k (Val v) c') kvs c"
| "Object_assign c v = c"

text \<open>The condition under which the loop merges a result.\<close>

definition mergeable :: "jsval \<Rightarrow> bool" where
  "mergeable result = (truthy result \<and> typeof_object result \<and> \<not> Array_isArray result)"

datatype 'e loop_end = Completed | Stopped | Failed 'e | Hung

text \<open>
  The \<open>for\<close> loop inside \<open>try\<close>. The result tells how the loop ended, which steps were
  called (the index of each in \<open>pipeFn\<close>, with the context and the world it was called
  in), and the context and the world at the end.
\<close>

fun run_pipes ::
  "nat \<Rightarrow> ('e, 'w) PipeFn list \<Rightarrow> ctx \<Rightarrow> 'w \<Rightarrow> 'e loop_end \<times> (nat \<times> ctx \<times> 'w) list \<times> ctx \<times> 'w"
where
  "run_pipes i [] c w = (Completed, [], c, w)"
| "run_pipes i (fn # fns) c w =
     (case fn c w of
        (Unsettled, c1, w1) \<Rightarrow> (Hung, [(i, c, w)], c1, w1)
      | (Raised err, c1, w1) \<Rightarrow> (Failed err, [(i, c, w)], c1, w1)
      | (Value result, c1, w1) \<Rightarrow>
          if result = JBool False then (Stopped, [(i, c, w)], c1, w1)
          else
            (case run_pipes (Suc i) fns
                    (if mergeable result then Object_assign c1 result else c1) w1 of
               (e, tr, c2, w2) \<Rightarrow> (e, (i, c, w) # tr, c2, w2)))"

datatype 'e settlement = Resolved | Rejected 'e | NeverSettled

text \<open>What one call of the built handler did: the steps called, the calls of the error
  handler (each with the context and the error it was given), how the handler's promise
  ended, and the context and the world at the end.\<close>

record ('e, 'w) dispatch =
  steps_called :: "(nat \<times> ctx \<times> 'w) list"
  catch_called :: "(ctx \<times> 'e) list"
  handler_promise :: "'e settlement"
  last_ctx :: ctx
  last_world :: 'w

definition build ::
  "('e, 'w) PerikanFlow \<Rightarrow> Perikan \<Rightarrow> clock \<Rightarrow> jsval \<Rightarrow> 'w \<Rightarrow> (('e, 'w) dispatch \<times> Perikan \<times> clock) option"
where
  "build fl pk clk eventData w =
     (case createFlowContext pk clk eventData of
        None \<Rightarrow> None
      | Some (c, pk1, clk1) \<Rightarrow>
          (case run_pipes 0 (pipeFn fl) c w of
             (Failed err, tr, c1, w1) \<Rightarrow>
               (case catchFn fl of
                  None \<Rightarrow>
                    Some (\<lparr>steps_called = tr, catch_called = [], handler_promise = Resolved,
                            last_ctx = c1, last_world = w1\<rparr>, pk1, clk1)
                | Some fn \<Rightarrow>
                    (case fn c1 err w1 of
                       (r, c2, w2) \<Rightarrow>
                         Some (\<lparr>steps_called = tr, catch_called = [(c1, err)],
                                 handler_promise =
                                   (case r of Value v \<Rightarrow> Resolved
                                    | Raised err' \<Rightarrow> Rejected err'
                                    | Unsettled \<Rightarrow> NeverSettled),
                                 last_ctx = c2, last_world = w2\<rparr>, pk1, clk1)))
           | (Hung, tr, c1, w1) \<Rightarrow>
               Some (\<lparr>steps_called = tr, catch_called = [], handler_promise = NeverSettled,
                       last_ctx = c1, last_world = w1\<rparr>, pk1, clk1)
           | (e, tr, c1, w1) \<Rightarrow>
               Some (\<lparr>steps_called = tr, catch_called = [], handler_promise = Resolved,
                       last_ctx = c1, last_world = w1\<rparr>, pk1, clk1)))"



section \<open>Concrete data for the closed theorems\<close>

text \<open>The payload schema \<^verbatim>\<open>z.object({ foo: z.string() })\<close> of the bus tests, the same
  with \<open>foo\<close> optional, and events with these schemas.\<close>

fun foo_schema :: "jsval \<Rightarrow> parse_result" where
  "foo_schema (JObj kvs) = (if is_string (get_prop (JObj kvs) ''foo'') then Success else Failure)"
| "foo_schema v = Failure"

fun optional_foo_schema :: "jsval \<Rightarrow> parse_result" where
  "optional_foo_schema (JObj kvs) =
     (if get_prop (JObj kvs) ''foo'' = JUndefined \<or> is_string (get_prop (JObj kvs) ''foo'')
      then Success else Failure)"
| "optional_foo_schema v = Failure"



definition TestEvent :: PerikanEvent where
  "TestEvent = \<lparr>topic = ''test.topic'', payloadSchema = foo_schema, opts = None\<rparr>"

definition foo_bar :: jsval where
  "foo_bar = JObj [(''foo'', JStr ''bar'')]"

definition DefaultedEvent :: PerikanEvent where
  "DefaultedEvent =
     \<lparr>topic = ''test.topic'', payloadSchema = foo_schema,
      opts = Some \<lparr>defaultTags = Some [''base''], defaultPayload = Some foo_bar\<rparr>\<rparr>"

definition OptionalEvent :: PerikanEvent where
  "OptionalEvent =
     \<lparr>topic = ''test.topic'', payloadSchema = optional_foo_schema,
      opts = Some \<lparr>defaultTags = None, defaultPayload = Some foo_bar\<rparr>\<rparr>"


definition worker1 :: PerikanInternalBusOptions where
  "worker1 = \<lparr>opt_workerId = Some 1, opt_maxTimeout = None\<rparr>"

text \<open>An envelope of \<open>TestEvent\<close> addressed to the workers \<open>to\<close>.\<close>

definition test_envelope :: "jsval list \<Rightarrow> jsval" where
  "test_envelope to =
     JObj [(''id'', JBigInt 1), (''time'', JNum 5), (''topic'', JStr ''test.topic''),
           (''from'', JNum 1), (''to'', JArr to), (''tags'', JArr []), (''payload'', foo_bar)]"


text \<open>Three handlers that leave the envelope as it is: handler 1 throws, handler 2 returns
  a promise that is rejected after 20 ms, every other handler returns a promise that is
  fulfilled after 50 ms.\<close>

fun three_handlers :: "string handler_table" where
  "three_handlers h e =
     (if h = 1 then Throws ''Sync Error''
      else if h = 2 then ReturnsPromise (Rejects 20 ''Fail'')
      else ReturnsPromise (Fulfils 50), e)"


text \<open>The bus of worker 1 with the handlers 1, 2 and 3 registered for \<open>TestEvent\<close>.\<close>

definition bus3 :: PerikanLocalBus where
  "bus3 = the_bus (run_ops worker1 [On TestEvent 1, On TestEvent 2, On TestEvent 3])"



text \<open>What the loop does after the step at position \<open>j\<close> of its trace, by the awaited result
  of this step: the statement proved of \<open>run_pipes\<close> by induction.\<close>

definition follows ::
  "('e, 'w) PipeFn list \<Rightarrow> 'e loop_end \<Rightarrow> (nat \<times> ctx \<times> 'w) list \<Rightarrow> ctx \<Rightarrow> 'w \<Rightarrow> nat \<Rightarrow> bool"
where
  "follows fns e tr c2 w2 j =
     (case tr ! j of (k, c, w) \<Rightarrow>
        (case (fns ! j) c w of
           (Value v, c1, w1) \<Rightarrow>
             if v = JBool False then length tr = Suc j \<and> e = Stopped \<and> c2 = c1 \<and> w2 = w1
             else if Suc j < length fns
               then Suc j < length tr \<and>
                    tr ! Suc j = (Suc k, if mergeable v then Object_assign c1 v else c1, w1)
               else length tr = Suc j \<and> e = Completed \<and>
                    c2 = (if mergeable v then Object_assign c1 v else c1) \<and> w2 = w1
         | (Raised x, c1, w1) \<Rightarrow> length tr = Suc j \<and> e = Failed x \<and> c2 = c1 \<and> w2 = w1
         | (Unsettled, c1, w1) \<Rightarrow> length tr = Suc j \<and> e = Hung))"

text \<open>Steps for the closed theorems. The world is the list of what the steps saw of the
  property \<open>a\<close> of the context. \<open>give_a\<close> returns \<^verbatim>\<open>{a: 1}\<close>, \<open>see_a\<close> records the property
  and returns \<open>true\<close>, \<open>stop\<close> returns \<open>false\<close>, \<open>boom\<close> throws, and \<open>note_a\<close> is an error
  handler that records the property.\<close>

definition give_a :: "(string, ctx_value option list) PipeFn" where
  "give_a c w = (Value (JObj [(''a'', JNum 1)]), c, w)"

definition see_a :: "(string, ctx_value option list) PipeFn" where
  "see_a c w = (Value (JBool True), c, w @ [map_of c ''a''])"


definition boom :: "(string, ctx_value option list) PipeFn" where
  "boom c w = (Raised ''test error'', c, w)"

definition note_a :: "(string, ctx_value option list) CatchFn" where
  "note_a c err w = (Value JUndefined, c, w @ [map_of c ''a''])"


definition failing_flow :: "(string, ctx_value option list) PerikanFlow" where
  "failing_flow = catch note_a (pipe see_a (pipe boom (pipe give_a new_PerikanFlow)))"

definition silent_flow :: "(string, ctx_value option list) PerikanFlow" where
  "silent_flow = pipe see_a (pipe boom (pipe give_a new_PerikanFlow))"

section \<open>The id generator: a burst that uses up the sequence numbers\<close>

lemma and_maxSequence: "0 \<le> x \<Longrightarrow> x < 4096 \<Longrightarrow> x AND maxSequence = x"
proof -
  assume a: "0 \<le> x" "x < 4096"
  have m: "maxSequence = mask 12"
    by (simp add: maxSequence_def sequenceBits_def mask_eq_exp_minus_1)
  have "take_bit 12 x = x"
    using a by (simp add: take_bit_int_eq_self)
  then show ?thesis
    by (simp add: m take_bit_eq_mask)
qed

text \<open>Calls within the millisecond of the last call count the sequence number up, as long
  as it stays below 4096.\<close>

lemma same_ms_calls:
  "lastMs g = T \<Longrightarrow> 0 \<le> sequence g \<Longrightarrow> sequence g + int n \<le> 4095 \<Longrightarrow>
   nextIds n g (replicate n T @ rest) =
     Some (map (\<lambda>k. make_id T (g\<lparr>sequence := sequence g + 1 + int k\<rparr>)) [0..<n],
           g\<lparr>sequence := sequence g + int n\<rparr>, rest)"
proof (induction n arbitrary: g)
  case 0
  then show ?case by simp
next
  case (Suc n)
  let ?g1 = "g\<lparr>sequence := sequence g + 1\<rparr>"
  have s1: "(sequence g + 1) AND maxSequence = sequence g + 1"
    using Suc.prems by (intro and_maxSequence) auto
  have pos: "sequence g + 1 \<noteq> 0"
    using Suc.prems by auto
  have step: "nextId g (T # replicate n T @ rest) = Some (make_id T ?g1, ?g1, replicate n T @ rest)"
    using Suc.prems(1) s1 pos by (simp add: Let_def)
  have ih: "nextIds n ?g1 (replicate n T @ rest) =
     Some (map (\<lambda>k. make_id T (?g1\<lparr>sequence := sequence ?g1 + 1 + int k\<rparr>)) [0..<n],
           ?g1\<lparr>sequence := sequence ?g1 + int n\<rparr>, rest)"
    using Suc.prems by (intro Suc.IH) auto
  have u: "[0..<Suc n] = 0 # map Suc [0..<n]"
    by (simp only: map_Suc_upt upt_conv_Cons [OF zero_less_Suc])
  have m: "map (\<lambda>k. make_id T (g\<lparr>sequence := sequence g + 1 + int k\<rparr>)) [0..<Suc n]
     = make_id T ?g1 # map (\<lambda>k. make_id T (?g1\<lparr>sequence := sequence ?g1 + 1 + int k\<rparr>)) [0..<n]"
    by (simp only: u) (simp add: comp_def add.assoc)
  have e: "?g1\<lparr>sequence := sequence ?g1 + int n\<rparr> = g\<lparr>sequence := sequence g + int (Suc n)\<rparr>"
    by (simp add: add.assoc)
  show ?case
    unfolding m e [symmetric]
    using step ih by (simp del: nextId.simps upt_Suc)
qed

lemma first_call:
  "T \<noteq> 0 \<Longrightarrow> nextId (new_SnowFlake w) (T # clk) =
     Some (make_id T \<lparr>workerId = w, lastMs = T, sequence = 0\<rparr>,
           \<lparr>workerId = w, lastMs = T, sequence = 0\<rparr>, clk)"
  by (simp add: new_SnowFlake_def Let_def)

text \<open>The call that wraps the sequence number waits for the clock and then builds its id
  from the time it read before the wait.\<close>

lemma wrap_call:
  "nextId \<lparr>workerId = w, lastMs = T, sequence = 4095\<rparr> [T, T + 1] =
     Some (make_id T \<lparr>workerId = w, lastMs = T, sequence = 0\<rparr>,
           \<lparr>workerId = w, lastMs = T, sequence = 0\<rparr>, [])"
  by (simp add: maxSequence_def sequenceBits_def Let_def)

lemma nextIds_add:
  "nextIds (m + n) g clk =
     (case nextIds m g clk of
        None \<Rightarrow> None
      | Some (is1, g1, clk1) \<Rightarrow>
          (case nextIds n g1 clk1 of
             None \<Rightarrow> None
           | Some (is2, g2, clk2) \<Rightarrow> Some (is1 @ is2, g2, clk2)))"
  by (induction m arbitrary: g clk) (auto split: option.splits simp del: nextId.simps)

text \<open>
  Claim C1 (the code breaks it). A generator of worker 1 is called 4097 times while the
  clock reads 1704067200001, and the clock reads 1704067200002 once the last call waits.
  The clock never goes back, all calls return, and the last id returned equals the first
  one, 4198400: the id of the call that wrapped the sequence number is built from the
  time read before the wait.
\<close>

theorem nextId_reuses_id_after_rollover:
  "\<exists>ids g clk.
     nextIds 4097 (new_SnowFlake 1) (replicate 4097 1704067200001 @ [1704067200002]) = Some (ids, g, clk)
     \<and> length ids = 4097 \<and> ids ! 4096 = ids ! 0 \<and> ids ! 0 = 4198400"
proof -
  define T :: int where "T = 1704067200001"
  define N :: nat where "N = 4095"
  let ?g0 = "\<lparr>workerId = 1, lastMs = T, sequence = 0\<rparr>"
  define mids where "mids = map (\<lambda>k. make_id T (?g0\<lparr>sequence := sequence ?g0 + 1 + int k\<rparr>)) [0..<N]"
  have clk: "replicate 4097 (1704067200001::int) @ [1704067200002] = T # (replicate N T @ [T, T + 1])"
  proof -
    have "replicate 4097 T = T # replicate 4095 T @ [T]"
      by (simp add: replicate_append_same flip: replicate_Suc)
    then show ?thesis
      by (simp add: T_def N_def)
  qed
  have mid: "nextIds N ?g0 (replicate N T @ [T, T + 1]) =
     Some (mids, ?g0\<lparr>sequence := sequence ?g0 + int N\<rparr>, [T, T + 1])"
    unfolding mids_def by (rule same_ms_calls) (simp_all add: N_def)
  have s: "?g0\<lparr>sequence := sequence ?g0 + int N\<rparr> = \<lparr>workerId = 1, lastMs = T, sequence = 4095\<rparr>"
    by (simp add: N_def)
  have last: "nextIds 1 \<lparr>workerId = 1, lastMs = T, sequence = 4095\<rparr> [T, T + 1] =
      Some ([make_id T ?g0], ?g0, [])"
    using wrap_call [of 1 T] by (simp del: nextId.simps)
  have tail: "nextIds (N + 1) ?g0 (replicate N T @ [T, T + 1]) =
     Some (mids @ [make_id T ?g0], ?g0, [])"
    unfolding nextIds_add mid s using last by simp
  have T0: "T \<noteq> 0"
    by (simp add: T_def)
  have all1: "nextIds (Suc (N + 1)) (new_SnowFlake 1) (T # (replicate N T @ [T, T + 1])) =
     Some (make_id T ?g0 # mids @ [make_id T ?g0], ?g0, [])"
    using first_call [OF T0, of 1 "replicate N T @ [T, T + 1]"] tail
    by (simp only: nextIds.simps(2) option.case prod.case)
  have n: "(4097::nat) = Suc (N + 1)"
    by (simp add: N_def)
  have len: "length mids = 4095"
    by (simp add: mids_def N_def)
  have v: "make_id T ?g0 = 4198400"
    by (simp add: make_id_def T_def epoch_def workerIdBits_def sequenceBits_def)
  have "(make_id T ?g0 # mids @ [make_id T ?g0]) ! 4096 = (mids @ [make_id T ?g0]) ! 4095"
    by simp
  also have "\<dots> = make_id T ?g0"
    using len by (simp add: nth_append)
  finally have e: "(make_id T ?g0 # mids @ [make_id T ?g0]) ! 4096 = make_id T ?g0" .
  have all: "nextIds 4097 (new_SnowFlake 1) (T # (replicate N T @ [T, T + 1])) =
     Some (make_id T ?g0 # mids @ [make_id T ?g0], ?g0, [])"
    using all1 by (simp only: n)
  have full: "nextIds 4097 (new_SnowFlake 1) (replicate 4097 1704067200001 @ [1704067200002]) =
     Some (make_id T ?g0 # mids @ [make_id T ?g0], ?g0, [])"
    using all by (simp only: clk)
  show ?thesis
    using e len v by (simp only: full) simp
qed

section \<open>The registry of the bus\<close>






lemma validate_cases:
  "validate ev e = Inr True \<longleftrightarrow> eventSchema ev e = Success"
  "validate ev e = Inr False \<longleftrightarrow> eventSchema ev e = Failure"
  "validate ev e = Inl err \<longleftrightarrow> eventSchema ev e = ParseThrows \<and> err = SchemaThrew"
  by (auto simp: validate_def split: parse_result.splits)








lemma test_envelope_schema:
  "eventSchema TestEvent (test_envelope to) = (if list_all is_number to then Success else Failure)"
  by (simp add: test_envelope_def TestEvent_def foo_bar_def envelope_fields_def)

lemma test_envelope_valid:
  "list_all is_number to \<Longrightarrow> validate TestEvent (test_envelope to) = Inr True"
  by (simp add: validate_cases test_envelope_schema)

lemma test_envelope_to: "get_prop (test_envelope to) ''to'' = JArr to"
  by (simp add: test_envelope_def)


section \<open>Delivery by the bus\<close>





text \<open>The calls of the handlers: every handler of the list is called, in order; the first
  gets the envelope given, each later one the envelope as the call before left it; the
  task of a call comes from the result of this call alone.\<close>

lemma call_handlers_handlers: "map (\<lambda>c. fst (fst c)) (call_handlers run hs d) = hs"
  by (induction hs arbitrary: d) (auto split: prod.splits)






lemma emit_delivers:
  assumes "validate ev e = Inr True" and "get_prop e ''to'' = JArr to"
    and "to = [] \<or> JNum (bus_workerId b) \<in> set to"
    and "handlersMap b (topic ev) = Some a"
  shows "emit run b ev e =
     \<lparr>invoked = map fst (call_handlers run (store b a) e),
      outcomes = map (\<lambda>c. raced_task b (snd c)) (call_handlers run (store b a) e),
      settled = Promise_allSettled (map (\<lambda>c. raced_task b (snd c)) (call_handlers run (store b a) e))\<rparr>"
  using assms by (auto simp: emit_def Let_def split_def)

lemma emit_filtered:
  assumes "get_prop e ''to'' = JArr to" and "to \<noteq> []" and "JNum (bus_workerId b) \<notin> set to"
    and "eventSchema ev e \<noteq> ParseThrows"
  shows "emit run b ev e = nothing_emitted"
  using assms by (cases "eventSchema ev e") (simp_all add: emit_def validate_def)





lemma bus3_state:
  "handlersMap bus3 (topic TestEvent) = Some 0 \<and> store bus3 0 = [1, 2, 3] \<and>
   bus_workerId bus3 = 1 \<and> maxTimeout bus3 = 0"
  by (simp add: bus3_def run_ops_def new_session_def new_PerikanLocalBus_def worker1_def on_def
      TestEvent_def Set_add_def Let_def)













text \<open>
  Claim C5. For an envelope that passes validation, a bus with worker id \<open>W0\<close> and a topic
  with registered handlers: with an empty \<open>to\<close> all handlers are called, whatever \<open>W0\<close> is;
  with \<open>to = [W]\<close> the handlers are called if \<open>W = W0\<close> and none is called otherwise; with
  \<open>to\<close> not empty and without \<open>W0\<close> no handler is called and \<open>emit\<close> returns a promise
  fulfilled at once.
\<close>

theorem worker_filter:
  assumes "validate ev e = Inr True" and "handlersMap b (topic ev) = Some a" and "store b a \<noteq> []"
    and "get_prop e ''to'' = JArr to"
  shows "(to = [] \<longrightarrow> map fst (invoked (emit run b ev e)) = store b a) \<and>
    (\<forall>W. to = [JNum W] \<longrightarrow>
       map fst (invoked (emit run b ev e)) = (if W = bus_workerId b then store b a else []) \<and>
       (invoked (emit run b ev e) \<noteq> [] \<longleftrightarrow> W = bus_workerId b)) \<and>
    (to \<noteq> [] \<and> JNum (bus_workerId b) \<notin> set to \<longrightarrow>
       invoked (emit run b ev e) = [] \<and> settled (emit run b ev e) = Fulfils 0)"
proof (intro conjI allI impI)
  have nt: "eventSchema ev e \<noteq> ParseThrows"
    using assms(1) by (simp add: validate_cases)
  have all: "map fst (invoked (emit run b ev e)) = store b a"
    if "to = [] \<or> JNum (bus_workerId b) \<in> set to"
    using emit_delivers [OF assms(1) assms(4) that assms(2), of run]
      call_handlers_handlers [of run "store b a" e]
    by (simp add: comp_def)
  {
    assume "to = []"
    then show "map fst (invoked (emit run b ev e)) = store b a"
      using all by simp
  next
    fix W
    assume w: "to = [JNum W]"
    show c: "map fst (invoked (emit run b ev e)) = (if W = bus_workerId b then store b a else [])"
    proof (cases "W = bus_workerId b")
      case True
      then show ?thesis
        using w all by simp
    next
      case False
      then show ?thesis
        using w emit_filtered [OF assms(4) _ _ nt, of b run] by (simp add: nothing_emitted_def)
    qed
    show "invoked (emit run b ev e) \<noteq> [] \<longleftrightarrow> W = bus_workerId b"
      using c assms(3) by (cases "W = bus_workerId b") auto
  next
    assume f: "to \<noteq> [] \<and> JNum (bus_workerId b) \<notin> set to"
    then have "emit run b ev e = nothing_emitted"
      using emit_filtered [OF assms(4) _ _ nt, of b run] by simp
    then show "invoked (emit run b ev e) = []" and "settled (emit run b ev e) = Fulfils 0"
      by (simp_all add: nothing_emitted_def)
  }
qed

theorem worker_filter_witness:
  "validate TestEvent (test_envelope [JNum 2]) = Inr True \<and>
   handlersMap bus3 (topic TestEvent) = Some 0 \<and> store bus3 0 \<noteq> [] \<and>
   get_prop (test_envelope [JNum 2]) ''to'' = JArr [JNum 2] \<and>
   invoked (emit three_handlers bus3 TestEvent (test_envelope [JNum 2])) = [] \<and>
   settled (emit three_handlers bus3 TestEvent (test_envelope [JNum 2])) = Fulfils 0 \<and>
   map fst (invoked (emit three_handlers bus3 TestEvent (test_envelope [JNum 1]))) = [1, 2, 3] \<and>
   map fst (invoked (emit three_handlers bus3 TestEvent (test_envelope []))) = [1, 2, 3]"
proof -
  have r: "handlersMap bus3 (topic TestEvent) = Some 0"
    by (simp add: bus3_state)
  have s: "store bus3 0 \<noteq> []"
    by (simp add: bus3_state)
  have v: "validate TestEvent (test_envelope [JNum 2]) = Inr True"
    "validate TestEvent (test_envelope [JNum 1]) = Inr True"
    "validate TestEvent (test_envelope []) = Inr True"
    by (simp_all add: test_envelope_valid)
  have t: "get_prop (test_envelope [JNum 2]) ''to'' = JArr [JNum 2]"
    by (rule test_envelope_to)
  have a: "invoked (emit three_handlers bus3 TestEvent (test_envelope [JNum 2])) = [] \<and>
     settled (emit three_handlers bus3 TestEvent (test_envelope [JNum 2])) = Fulfils 0"
    using worker_filter [OF v(1) r s t, of three_handlers] by (simp add: bus3_state)
  have b: "map fst (invoked (emit three_handlers bus3 TestEvent (test_envelope [JNum 1]))) = [1, 2, 3]"
    using worker_filter [OF v(2) r s test_envelope_to, of three_handlers] by (simp add: bus3_state)
  have c: "map fst (invoked (emit three_handlers bus3 TestEvent (test_envelope []))) = [1, 2, 3]"
    using worker_filter [OF v(3) r s test_envelope_to, of three_handlers] by (simp add: bus3_state)
  show ?thesis
    using r s v t a b c by simp
qed

section \<open>The loop of a built flow handler\<close>

lemma run_pipes_indices:
  "run_pipes i fns c w = (e, tr, c2, w2) \<Longrightarrow>
   map fst tr = [i..<i + length tr] \<and> length tr \<le> length fns"
proof (induction fns arbitrary: i c w e tr c2 w2)
  case Nil
  then show ?case by simp
next
  case (Cons fn fns)
  obtain r c1 w1 where f: "fn c w = (r, c1, w1)"
    by (cases "fn c w") auto
  show ?case
  proof (cases r)
    case (Value v)
    show ?thesis
    proof (cases "v = JBool False")
      case True
      then show ?thesis
        using Cons.prems f Value by auto
    next
      case False
      obtain e' tr' c' w' where rest:
        "run_pipes (Suc i) fns (if mergeable v then Object_assign c1 v else c1) w1 = (e', tr', c', w')"
        by (metis prod_cases4)
      from Cons.IH [OF rest] have ih: "map fst tr' = [Suc i..<Suc i + length tr']" "length tr' \<le> length fns"
        by simp_all
      have tr: "tr = (i, c, w) # tr'"
        using Cons.prems f Value False rest by simp
      have "[i..<i + length tr] = i # [Suc i..<Suc i + length tr']"
        by (simp add: tr upt_rec [of i] del: upt_Suc)
      then show ?thesis
        using ih by (simp add: tr del: upt_Suc)
    qed
  next
    case (Raised x)
    then show ?thesis
      using Cons.prems f by auto
  next
    case Unsettled
    then show ?thesis
      using Cons.prems f by auto
  qed
qed

lemma run_pipes_follows:
  "run_pipes i fns c w = (e, tr, c2, w2) \<Longrightarrow> j < length tr \<Longrightarrow> follows fns e tr c2 w2 j"
proof (induction fns arbitrary: i c w e tr c2 w2 j)
  case Nil
  then show ?case by simp
next
  case (Cons fn fns)
  obtain r c1 w1 where f: "fn c w = (r, c1, w1)"
    by (cases "fn c w") auto
  show ?case
  proof (cases r)
    case (Raised x)
    then show ?thesis
      using Cons.prems f by (auto simp: follows_def)
  next
    case Unsettled
    then show ?thesis
      using Cons.prems f by (auto simp: follows_def)
  next
    case (Value v)
    show ?thesis
    proof (cases "v = JBool False")
      case True
      then show ?thesis
        using Cons.prems f Value by (auto simp: follows_def)
    next
      case False
      let ?c = "if mergeable v then Object_assign c1 v else c1"
      obtain e' tr' c' w' where rest: "run_pipes (Suc i) fns ?c w1 = (e', tr', c', w')"
        by (metis prod_cases4)
      have res: "e = e'" "tr = (i, c, w) # tr'" "c2 = c'" "w2 = w'"
        using Cons.prems(1) f Value False rest by simp_all
      show ?thesis
      proof (cases j)
        case 0
        show ?thesis
        proof (cases fns)
          case Nil
          then show ?thesis
            using rest res f Value False 0 by (auto simp: follows_def)
        next
          case (Cons g gs)
          have "tr' \<noteq> [] \<and> tr' ! 0 = (Suc i, ?c, w1)"
            using rest unfolding Cons
            by (auto split: prod.splits awaited.splits if_splits)
          then show ?thesis
            using res f Value False 0 Cons by (auto simp: follows_def)
        qed
      next
        case (Suc j')
        then have "j' < length tr'"
          using Cons.prems(2) res by simp
        from Cons.IH [OF rest this] have "follows fns e' tr' c' w' j'" .
        then show ?thesis
          using res Suc by (auto simp: follows_def split: prod.splits awaited.splits if_splits)
      qed
    qed
  qed
qed







text \<open>The built handler returns when the id generator does; its result is read off the
  result of the loop.\<close>

lemma build_result:
  assumes "Perikan_nextId pk clk = Some (fid, pk1, clk1)"
  shows "\<exists>r c0 en c2 w2.
     build fl pk clk e w = Some (r, pk1, clk1) \<and>
     createFlowContext pk clk e = Some (c0, pk1, clk1) \<and>
     run_pipes 0 (pipeFn fl) c0 w = (en, steps_called r, c2, w2) \<and>
     (en = Stopped \<or> en = Completed \<longrightarrow>
        catch_called r = [] \<and> handler_promise r = Resolved \<and> last_ctx r = c2 \<and> last_world r = w2) \<and>
     (\<forall>x. en = Failed x \<longrightarrow>
        (catchFn fl = None \<longrightarrow> catch_called r = [] \<and> handler_promise r = Resolved) \<and>
        (\<forall>g. catchFn fl = Some g \<longrightarrow> catch_called r = [(c2, x)])) \<and>
     (en = Hung \<longrightarrow> catch_called r = [] \<and> handler_promise r = NeverSettled)"
proof -
  obtain c0 where c0: "createFlowContext pk clk e = Some (c0, pk1, clk1)"
    using assms by (simp add: createFlowContext_def)
  obtain en tr c2 w2 where run: "run_pipes 0 (pipeFn fl) c0 w = (en, tr, c2, w2)"
    by (metis prod_cases4)
  show ?thesis
  proof (cases en)
    case Completed
    then show ?thesis
      using c0 run by (simp add: build_def)
  next
    case Stopped
    then show ?thesis
      using c0 run by (simp add: build_def)
  next
    case Hung
    then show ?thesis
      using c0 run by (simp add: build_def)
  next
    case (Failed x)
    show ?thesis
    proof (cases "catchFn fl")
      case None
      then show ?thesis
        using c0 run Failed by (simp add: build_def)
    next
      case (Some g)
      obtain r' c3 w3 where g: "g c2 x w2 = (r', c3, w3)"
        by (cases "g c2 x w2") auto
      show ?thesis
        using c0 run Failed Some g by (simp add: build_def)
    qed
  qed
qed



lemma nextId_first:
  "Perikan_nextId (new_Perikan 1) (1704067200001 # clk) =
     Some (4198400, \<lparr>options_workerId = 1, sf = \<lparr>workerId = 1, lastMs = 1704067200001, sequence = 0\<rparr>\<rparr>, clk)"
  by (simp add: Perikan_nextId_def new_Perikan_def new_SnowFlake_def Let_def make_id_def epoch_def
      workerIdBits_def sequenceBits_def)


text \<open>
  Claim C9. When the awaited result of a step is an error (the step threw, or its promise
  was rejected), this step is the last one called. With a registered error handler, the
  handler is called once, with the context as the failing step left it and with the
  error. Without one no error handler is called and the promise of the built handler is
  fulfilled.
\<close>

theorem flow_step_error:
  assumes "Perikan_nextId pk clk = Some (fid, pk1, clk1)"
  shows "catchFn (catch g fl) = Some g \<and> pipeFn (catch g fl) = pipeFn fl \<and>
    (\<exists>r. build fl pk clk e w = Some (r, pk1, clk1) \<and>
       (\<forall>j c u x c1 u1.
          j < length (steps_called r) \<and> steps_called r ! j = (j, c, u) \<and>
          (pipeFn fl ! j) c u = (Raised x, c1, u1) \<longrightarrow>
            map fst (steps_called r) = [0..<Suc j] \<and>
            (\<forall>g'. catchFn fl = Some g' \<longrightarrow> catch_called r = [(c1, x)]) \<and>
            (catchFn fl = None \<longrightarrow> catch_called r = [] \<and> handler_promise r = Resolved)))"
proof -
  from build_result [OF assms, of fl e w] obtain r c0 en c2 w2 where
    b: "build fl pk clk e w = Some (r, pk1, clk1)"
    and run: "run_pipes 0 (pipeFn fl) c0 w = (en, steps_called r, c2, w2)"
    and failed: "\<forall>x. en = Failed x \<longrightarrow>
        (catchFn fl = None \<longrightarrow> catch_called r = [] \<and> handler_promise r = Resolved) \<and>
        (\<forall>g. catchFn fl = Some g \<longrightarrow> catch_called r = [(c2, x)])"
    by blast
  have idx: "map fst (steps_called r) = [0..<length (steps_called r)]"
    using run_pipes_indices [OF run] by simp
  have each: "\<forall>j c u x c1 u1.
          j < length (steps_called r) \<and> steps_called r ! j = (j, c, u) \<and>
          (pipeFn fl ! j) c u = (Raised x, c1, u1) \<longrightarrow>
            map fst (steps_called r) = [0..<Suc j] \<and>
            (\<forall>g'. catchFn fl = Some g' \<longrightarrow> catch_called r = [(c1, x)]) \<and>
            (catchFn fl = None \<longrightarrow> catch_called r = [] \<and> handler_promise r = Resolved)"
  proof (intro allI impI)
    fix j c u x c1 u1
    assume a: "j < length (steps_called r) \<and> steps_called r ! j = (j, c, u) \<and>
          (pipeFn fl ! j) c u = (Raised x, c1, u1)"
    then have "follows (pipeFn fl) en (steps_called r) c2 w2 j"
      using run_pipes_follows [OF run] by blast
    then have f: "length (steps_called r) = Suc j \<and> en = Failed x \<and> c2 = c1 \<and> w2 = u1"
      using a by (simp add: follows_def)
    show "map fst (steps_called r) = [0..<Suc j] \<and>
            (\<forall>g'. catchFn fl = Some g' \<longrightarrow> catch_called r = [(c1, x)]) \<and>
            (catchFn fl = None \<longrightarrow> catch_called r = [] \<and> handler_promise r = Resolved)"
      using f idx failed by (simp del: upt_Suc)
  qed
  have reg: "catchFn (catch g fl) = Some g \<and> pipeFn (catch g fl) = pipeFn fl"
    by (simp add: catch_def)
  show ?thesis
    using reg b each by blast
qed

theorem flow_step_error_witness:
  "Perikan_nextId (new_Perikan 1) [1704067200001] =
     Some (4198400,
           \<lparr>options_workerId = 1, sf = \<lparr>workerId = 1, lastMs = 1704067200001, sequence = 0\<rparr>\<rparr>, []) \<and>
   (\<exists>r. build failing_flow (new_Perikan 1) [1704067200001] (test_envelope []) [] =
           Some (r, \<lparr>options_workerId = 1, sf = \<lparr>workerId = 1, lastMs = 1704067200001, sequence = 0\<rparr>\<rparr>, []) \<and>
        map fst (steps_called r) = [0, 1] \<and>
        map snd (catch_called r) = [''test error''] \<and>
        last_world r = [Some (Val (JNum 1))]) \<and>
   (\<exists>r. build silent_flow (new_Perikan 1) [1704067200001] (test_envelope []) [] =
           Some (r, \<lparr>options_workerId = 1, sf = \<lparr>workerId = 1, lastMs = 1704067200001, sequence = 0\<rparr>\<rparr>, []) \<and>
        map fst (steps_called r) = [0, 1] \<and>
        catch_called r = [] \<and> handler_promise r = Resolved)"
proof -
  have ev1: "map_option (\<lambda>(r, p, c). (map fst (steps_called r), map snd (catch_called r), last_world r))
        (build failing_flow (new_Perikan 1) [1704067200001] (test_envelope []) []) =
      Some ([0, 1], [''test error''], [Some (Val (JNum 1))])"
    by (simp add: build_def createFlowContext_def nextId_first failing_flow_def pipe_def catch_def
        new_PerikanFlow_def give_a_def see_a_def boom_def note_a_def mergeable_def)
  have ev2: "map_option (\<lambda>(r, p, c). (map fst (steps_called r), catch_called r, handler_promise r))
        (build silent_flow (new_Perikan 1) [1704067200001] (test_envelope []) []) =
      Some ([0, 1], [], Resolved)"
    by (simp add: build_def createFlowContext_def nextId_first silent_flow_def pipe_def
        new_PerikanFlow_def give_a_def see_a_def boom_def mergeable_def)
  show ?thesis
    using nextId_first [of "[]"] ev1 ev2
      flow_step_error [OF nextId_first [of "[]"], of _ failing_flow "test_envelope []" "[]"]
      flow_step_error [OF nextId_first [of "[]"], of _ silent_flow "test_envelope []" "[]"]
    by auto
qed

section \<open>Creating events\<close>

lemma isEmpty_iff: "isEmpty p \<longleftrightarrow> p = JUndefined \<or> p = JNull \<or> p = JObj [] \<or> p = JArr []"
  by (cases p) auto


lemma resolveArgs_payload:
  "opts' \<noteq> JUndefined \<or> \<not> looks_like_options p \<Longrightarrow>
   resolveArgs ev p opts' = (if isEmpty p then defaultPayload_or_empty ev else p, opts')"
  by (auto simp: resolveArgs_def)


lemma buildEventData_returns:
  "Perikan_nextId pk clk = Some (i, pk1, t # clk2) \<Longrightarrow> call_tags options = Some tags \<Longrightarrow>
   \<exists>env. buildEventData ev pk clk payload options = Some (Inr env, pk1, clk2) \<and>
         get_prop env ''payload'' = payload \<and>
         get_prop env ''tags'' = JArr (defaultTags_or_empty ev @ tags) \<and>
         get_prop env ''topic'' = JStr (topic ev) \<and>
         get_prop env ''id'' = JBigInt i"
  by (simp add: buildEventData_def)




text \<open>
  Claim C6 as stated fails. The empty object lacks the required field \<open>foo\<close>, yet \<open>create\<close>
  of a definition with a default payload returns an envelope, with the default payload.
  For a definition whose shape the empty object satisfies, the envelope returned for the
  empty object carries the default payload and not the input.
\<close>

theorem create_empty_payload_counterexample:
  "payloadSchema DefaultedEvent (JObj []) = Failure \<and>
   create DefaultedEvent (new_Perikan 1) [1704067200001, 1704067200002] (JObj []) JUndefined =
     Some (Inr (JObj
        [(''id'', JBigInt 4198400), (''time'', JNum 1704067200002),
         (''topic'', JStr ''test.topic''), (''from'', JNum 1), (''to'', JArr []),
         (''tags'', JArr [JStr ''base'']), (''payload'', JObj [(''foo'', JStr ''bar'')])]),
       \<lparr>options_workerId = 1, sf = \<lparr>workerId = 1, lastMs = 1704067200001, sequence = 0\<rparr>\<rparr>, []) \<and>
   payloadSchema OptionalEvent (JObj []) = Success \<and>
   create OptionalEvent (new_Perikan 1) [1704067200001, 1704067200002] (JObj []) JUndefined =
     Some (Inr (JObj
        [(''id'', JBigInt 4198400), (''time'', JNum 1704067200002),
         (''topic'', JStr ''test.topic''), (''from'', JNum 1), (''to'', JArr []),
         (''tags'', JArr []), (''payload'', JObj [(''foo'', JStr ''bar'')])]),
       \<lparr>options_workerId = 1, sf = \<lparr>workerId = 1, lastMs = 1704067200001, sequence = 0\<rparr>\<rparr>, []) \<and>
   JObj [(''foo'', JStr ''bar'')] \<noteq> JObj []"
  by (simp add: create_def resolveArgs_def looks_like_options_def defaultPayload_or_empty_def
      parsePayload_def buildEventData_def nextId_first call_tags_def nullish_or_def
      defaultTags_or_empty_def DefaultedEvent_def OptionalEvent_def foo_bar_def)

text \<open>
  Claim C6, amended. Let the payload \<open>p\<close> not be empty (not \<open>undefined\<close>, not null, not an
  object or array without keys) and be passed as the payload: with an options argument,
  or alone and not read as options. If the parse reports that \<open>p\<close> does not conform,
  \<open>create\<close> fails with a validation error, reads no clock and draws no id; if the parse
  throws, \<open>create\<close> fails with what was thrown. If \<open>p\<close> conforms, the id generator
  returns and the call's tags can be spread, \<open>create\<close> returns an envelope whose payload is
  \<open>p\<close> and whose tags are the default tags followed by the call's tags. An empty payload,
  with or without options, is replaced by the default payload of the definition (or the
  empty object): the replacement is what is validated and put into the envelope.
\<close>

theorem create_nonempty_payload:
  assumes "\<not> isEmpty p" and "opts' \<noteq> JUndefined \<or> \<not> looks_like_options p"
  shows "(payloadSchema ev p = Failure \<longrightarrow>
       create ev pk clk p opts' = Some (Inl ValidationError, pk, clk)) \<and>
    (payloadSchema ev p = ParseThrows \<longrightarrow>
       create ev pk clk p opts' = Some (Inl SchemaThrew, pk, clk)) \<and>
    (payloadSchema ev p = Success \<and> Perikan_nextId pk clk = Some (i, pk1, t # clk2) \<and>
     call_tags opts' = Some tags \<longrightarrow>
       (\<exists>env. create ev pk clk p opts' = Some (Inr env, pk1, clk2) \<and>
             get_prop env ''payload'' = p \<and>
             get_prop env ''tags'' = JArr (defaultTags_or_empty ev @ tags))) \<and>
    (\<forall>ts. get_prop opts' ''tags'' = JArr ts \<longrightarrow> call_tags opts' = Some ts) \<and>
    (nullish (get_prop opts' ''tags'') \<longrightarrow> call_tags opts' = Some []) \<and>
    (\<forall>os ts. opts ev = Some os \<and> defaultTags os = Some ts \<longrightarrow>
       defaultTags_or_empty ev = map JStr ts) \<and>
    (opts ev = None \<or> (\<exists>os. opts ev = Some os \<and> defaultTags os = None) \<longrightarrow>
       defaultTags_or_empty ev = []) \<and>
    (\<forall>q. isEmpty q \<and> opts' \<noteq> JUndefined \<longrightarrow>
       create ev pk clk q opts' = create ev pk clk (defaultPayload_or_empty ev) opts') \<and>
    (\<forall>q. isEmpty q \<longrightarrow>
       create ev pk clk q opts' =
         (case payloadSchema ev (defaultPayload_or_empty ev) of
            Success \<Rightarrow> buildEventData ev pk clk (defaultPayload_or_empty ev) opts'
          | Failure \<Rightarrow> Some (Inl ValidationError, pk, clk)
          | ParseThrows \<Rightarrow> Some (Inl SchemaThrew, pk, clk)))"
proof -
  have r: "resolveArgs ev p opts' = (p, opts')"
    using assms by (simp add: resolveArgs_payload del: isEmpty.simps)
  have c1: "payloadSchema ev p = Failure \<longrightarrow>
       create ev pk clk p opts' = Some (Inl ValidationError, pk, clk)"
    by (simp add: create_def r parsePayload_def)
  have c1': "payloadSchema ev p = ParseThrows \<longrightarrow>
       create ev pk clk p opts' = Some (Inl SchemaThrew, pk, clk)"
    by (simp add: create_def r parsePayload_def)
  have c2: "payloadSchema ev p = Success \<and> Perikan_nextId pk clk = Some (i, pk1, t # clk2) \<and>
     call_tags opts' = Some tags \<longrightarrow>
       (\<exists>env. create ev pk clk p opts' = Some (Inr env, pk1, clk2) \<and>
             get_prop env ''payload'' = p \<and>
             get_prop env ''tags'' = JArr (defaultTags_or_empty ev @ tags))"
  proof
    assume a: "payloadSchema ev p = Success \<and> Perikan_nextId pk clk = Some (i, pk1, t # clk2) \<and>
     call_tags opts' = Some tags"
    then have "create ev pk clk p opts' = buildEventData ev pk clk p opts'"
      by (simp add: create_def r parsePayload_def)
    then show "\<exists>env. create ev pk clk p opts' = Some (Inr env, pk1, clk2) \<and>
             get_prop env ''payload'' = p \<and>
             get_prop env ''tags'' = JArr (defaultTags_or_empty ev @ tags)"
      using buildEventData_returns [of pk clk i pk1 t clk2 opts' tags ev p] a by auto
  qed
  have c3: "\<forall>ts. get_prop opts' ''tags'' = JArr ts \<longrightarrow> call_tags opts' = Some ts"
    by (simp add: call_tags_def nullish_or_def)
  have c4: "nullish (get_prop opts' ''tags'') \<longrightarrow> call_tags opts' = Some []"
    by (simp add: call_tags_def nullish_or_def)
  have c5: "\<forall>os ts. opts ev = Some os \<and> defaultTags os = Some ts \<longrightarrow>
       defaultTags_or_empty ev = map JStr ts"
    by (simp add: defaultTags_or_empty_def)
  have c6: "opts ev = None \<or> (\<exists>os. opts ev = Some os \<and> defaultTags os = None) \<longrightarrow>
       defaultTags_or_empty ev = []"
    by (auto simp: defaultTags_or_empty_def)
  have c7: "\<forall>q. isEmpty q \<and> opts' \<noteq> JUndefined \<longrightarrow>
       create ev pk clk q opts' = create ev pk clk (defaultPayload_or_empty ev) opts'"
    by (simp add: create_def resolveArgs_def del: isEmpty.simps)
  have c8: "\<forall>q. isEmpty q \<longrightarrow>
       create ev pk clk q opts' =
         (case payloadSchema ev (defaultPayload_or_empty ev) of
            Success \<Rightarrow> buildEventData ev pk clk (defaultPayload_or_empty ev) opts'
          | Failure \<Rightarrow> Some (Inl ValidationError, pk, clk)
          | ParseThrows \<Rightarrow> Some (Inl SchemaThrew, pk, clk))"
  proof (intro allI impI)
    fix q
    assume e: "isEmpty q"
    then have "q = JUndefined \<or> q = JNull \<or> q = JObj [] \<or> q = JArr []"
      by (simp only: isEmpty_iff)
    then have "\<not> looks_like_options q"
      by (auto simp: looks_like_options_def)
    then have "resolveArgs ev q opts' = (defaultPayload_or_empty ev, opts')"
      using e resolveArgs_payload [of opts' q ev] by (cases "opts' = JUndefined") simp_all
    then show "create ev pk clk q opts' =
         (case payloadSchema ev (defaultPayload_or_empty ev) of
            Success \<Rightarrow> buildEventData ev pk clk (defaultPayload_or_empty ev) opts'
          | Failure \<Rightarrow> Some (Inl ValidationError, pk, clk)
          | ParseThrows \<Rightarrow> Some (Inl SchemaThrew, pk, clk))"
      by (simp add: create_def parsePayload_def split: parse_result.splits)
  qed
  show ?thesis
    using c1 c1' c2 c3 c4 c5 c6 c7 c8 by (intro conjI)
qed

theorem create_nonempty_payload_witness:
  "\<not> isEmpty foo_bar \<and> JObj [(''tags'', JArr [JStr ''x''])] \<noteq> JUndefined \<and>
   payloadSchema DefaultedEvent foo_bar = Success \<and>
   Perikan_nextId (new_Perikan 1) [1704067200001, 1704067200002] =
     Some (4198400, \<lparr>options_workerId = 1, sf = \<lparr>workerId = 1, lastMs = 1704067200001, sequence = 0\<rparr>\<rparr>,
           [1704067200002]) \<and>
   call_tags (JObj [(''tags'', JArr [JStr ''x''])]) = Some [JStr ''x''] \<and>
   (\<exists>env. create DefaultedEvent (new_Perikan 1) [1704067200001, 1704067200002] foo_bar
             (JObj [(''tags'', JArr [JStr ''x''])]) =
           Some (Inr env, \<lparr>options_workerId = 1, sf = \<lparr>workerId = 1, lastMs = 1704067200001, sequence = 0\<rparr>\<rparr>, []) \<and>
         get_prop env ''payload'' = foo_bar \<and>
         get_prop env ''tags'' = JArr [JStr ''base'', JStr ''x'']) \<and>
   \<not> isEmpty (JObj [(''bar'', JNum 1)]) \<and> \<not> looks_like_options (JObj [(''bar'', JNum 1)]) \<and>
   payloadSchema TestEvent (JObj [(''bar'', JNum 1)]) = Failure \<and>
   create TestEvent (new_Perikan 1) [1704067200001, 1704067200002] (JObj [(''bar'', JNum 1)]) JUndefined =
     Some (Inl ValidationError, new_Perikan 1, [1704067200001, 1704067200002])"
proof -
  have a: "\<not> isEmpty foo_bar" "JObj [(''tags'', JArr [JStr ''x''])] \<noteq> JUndefined"
    "payloadSchema DefaultedEvent foo_bar = Success"
    "call_tags (JObj [(''tags'', JArr [JStr ''x''])]) = Some [JStr ''x'']"
    "defaultTags_or_empty DefaultedEvent = [JStr ''base'']"
    by (simp_all add: foo_bar_def DefaultedEvent_def call_tags_def nullish_or_def defaultTags_or_empty_def)
  have b: "\<not> isEmpty (JObj [(''bar'', JNum 1)])" "\<not> looks_like_options (JObj [(''bar'', JNum 1)])"
    "payloadSchema TestEvent (JObj [(''bar'', JNum 1)]) = Failure"
    by (simp_all add: looks_like_options_def TestEvent_def)
  have o: "JObj [(''tags'', JArr [JStr ''x''])] \<noteq> JUndefined \<or> \<not> looks_like_options foo_bar"
    by simp
  have o2: "JUndefined \<noteq> JUndefined \<or> \<not> looks_like_options (JObj [(''bar'', JNum 1)])"
    using b(2) by simp
  show ?thesis
    using a b nextId_first [of "[1704067200002]"]
      create_nonempty_payload [OF a(1) o, of DefaultedEvent "new_Perikan 1"
        "[1704067200001, 1704067200002]" 4198400 _ 1704067200002 "[]" "[JStr ''x'']"]
      create_nonempty_payload [OF b(1) o2, of TestEvent "new_Perikan 1"
        "[1704067200001, 1704067200002]"]
    by simp
qed

end
